theory Spec2Isabelle
  imports Complex_Main "HOL-Library.Multiset" "HOL-Library.Sublist"
begin

section \<open>Strings\<close>

text \<open>
  The page is a Vue single-file component (src/pages/index.vue).  JavaScript strings are
  modelled as \<open>string\<close>, a list of 8-bit characters; text outside ASCII is held in
  UTF-8.  The built-ins \<open>toLowerCase\<close> and \<open>trim\<close> of the language work on all of
  Unicode and are not part of the component: they are parameters of the model (fields of
  the environment below), and nothing is assumed about them.
\<close>

fun startsWith :: "'a list \<Rightarrow> 'a list \<Rightarrow> bool" where
  "startsWith s [] = True"
| "startsWith [] (c # t) = False"
| "startsWith (d # s) (c # t) = (d = c \<and> startsWith s t)"

text \<open>\<open>str_includes s t\<close> is \<open>s.includes(t)\<close>: \<open>t\<close> occurs in \<open>s\<close> as a contiguous run.\<close>

fun str_includes :: "'a list \<Rightarrow> 'a list \<Rightarrow> bool" where
  "str_includes [] t = (t = [])"
| "str_includes (c # s) t = (startsWith (c # s) t \<or> str_includes s t)"

text \<open>The two literals of the request builder, U+706B U+934B and U+9910 U+5EF3, in UTF-8.\<close>

definition hotPot :: string where
  "hotPot = [CHR 0xE7, CHR 0x81, CHR 0xAB, CHR 0xE9, CHR 0x8D, CHR 0x8B]"

definition restaurantSuffix :: string where
  "restaurantSuffix = [CHR 0x20, CHR 0xE9, CHR 0xA4, CHR 0x90, CHR 0xE5, CHR 0xBB, CHR 0xB3]"

section \<open>Data model\<close>

record coordinate =
  lat :: rat
  lng :: rat

datatype business_status = OPERATIONAL | CLOSED_TEMPORARILY | CLOSED_PERMANENTLY

text \<open>
  A place of a nearby search.  Every field the code reads with \<open>?.\<close> or tests for
  presence is optional; a rating is a number (here a rational) or absent.  \<open>geometry\<close>
  is the location \<open>geometry.location\<close> of the place, absent when the place has no
  geometry.
\<close>

record place =
  place_id :: string
  name :: "string option"
  rating :: "rat option"
  business_status :: "business_status option"
  types :: "string list option"
  vicinity :: "string option"
  geometry :: "coordinate option"

record 'd selectedRestaurant = place +
  details :: "'d option"
  distance :: "rat option"

text \<open>A request of the builder; \<open>requestType\<close> is its field \<open>type\<close>.\<close>

record searchRequest =
  keyword :: "string option"
  requestType :: string
  rankby :: "string option"

record searchParams = searchRequest +
  location :: "coordinate option"
  radius :: int

datatype placesServiceStatus =
  OK | ZERO_RESULTS | INVALID_REQUEST | OVER_QUERY_LIMIT | REQUEST_DENIED | UNKNOWN_ERROR
  | NOT_FOUND

record marker =
  position :: coordinate
  title :: "string option"
  infoWindow :: nat

text \<open>
  The reactive state of the component.  An info window is identified by a number, and
  \<open>openInfoWindows\<close> is the set of the windows that are open on the map; \<open>nextWindow\<close>
  is the next unused number.  \<open>locationTimeout\<close> is the pending fallback timer of
  \<open>getUserLocation\<close> and \<open>positionPending\<close> the pending request to the device.  The
  counters \<open>readyWrites\<close>, \<open>locationMarkerUpdates\<close> and \<open>resolveCalls\<close> record how
  often the flag was written, the marker of the current location rebuilt and the promise
  of \<open>getUserLocation\<close> resolved.  The viewport of the map (centre, bounds, zoom) is not
  part of the model.
\<close>

record 'd viewState =
  service :: bool
  isLocationReady :: bool
  currentPosition :: "coordinate option"
  numberOfRestaurants :: int
  searchRadius :: int
  searchKeyword :: string
  selectedRestaurants :: "'d selectedRestaurant list"
  markers :: "marker list"
  currentLocationMarker :: "marker option"
  openInfoWindows :: "nat set"
  nextWindow :: nat
  showConfetti :: bool
  locationTimeout :: bool
  positionPending :: bool
  readyWrites :: nat
  locationMarkerUpdates :: nat
  resolveCalls :: nat

text \<open>
  What the component is given by its surroundings: the two calls of the places service,
  the distance of the geometry library (\<open>None\<close> when the library is missing or throws),
  and three built-ins of the language: \<open>toLowerCase\<close> and \<open>trim\<close> of strings, and
  \<open>arraySort\<close>, the array sort run with a comparator that ignores its arguments:
  \<open>arraySort vs xs\<close> is the array after sorting \<open>xs\<close> when the successive calls of
  the comparator return \<open>vs\<close>.  The language leaves the order open when the comparator
  is not consistent, so the sort is a parameter.
\<close>

record 'd environment =
  nearbySearch :: "searchParams \<Rightarrow> placesServiceStatus \<times> place list option"
  getDetails :: "string \<Rightarrow> placesServiceStatus \<times> 'd option"
  computeDistanceBetween :: "coordinate \<Rightarrow> coordinate \<Rightarrow> rat option"
  arraySort :: "rat list \<Rightarrow> place list \<Rightarrow> place list"
  toLowerCase :: "string \<Rightarrow> string"
  trim :: "string \<Rightarrow> string"

definition defaultPosition :: coordinate where
  "defaultPosition = \<lparr>lat = 226247 / 10000, lng = 1203578 / 10000\<rparr>"

section \<open>Search requests and the relevance filter\<close>

definition getSearchRequests :: "'d environment \<Rightarrow> string \<Rightarrow> searchRequest list" where
  "getSearchRequests env kw =
     (if trim env kw \<noteq> [] then
        (if str_includes kw hotPot
         then [\<lparr>keyword = Some (hotPot @ restaurantSuffix), requestType = ''restaurant'',
                 rankby = Some ''rating''\<rparr>]
         else [\<lparr>keyword = Some (trim env kw @ restaurantSuffix), requestType = ''restaurant'',
                 rankby = Some ''rating''\<rparr>])
      else [\<lparr>keyword = None, requestType = ''restaurant'', rankby = None\<rparr>])"

text \<open>\<open>field?.toLowerCase().includes(lowerKeyword)\<close>, read as a truth value.\<close>

definition fieldIncludes :: "'d environment \<Rightarrow> string option \<Rightarrow> string \<Rightarrow> bool" where
  "fieldIncludes env field lowerKeyword =
     (case field of
        None \<Rightarrow> False
      | Some s \<Rightarrow> str_includes (toLowerCase env s) lowerKeyword)"

definition isRelevantRestaurant ::
  "'d environment \<Rightarrow> 'a place_scheme \<Rightarrow> string \<Rightarrow> bool" where
  "isRelevantRestaurant env p kw =
     (if business_status p \<noteq> Some OPERATIONAL then False
      else if kw = [] then True
      else (let lowerKeyword = toLowerCase env kw in
              fieldIncludes env (name p) lowerKeyword
              \<or> (case types p of None \<Rightarrow> False
                  | Some ts \<Rightarrow>
                      list_ex (\<lambda>t. str_includes (toLowerCase env t) lowerKeyword) ts)
              \<or> fieldIncludes env (vicinity p) lowerKeyword))"

section \<open>The selection pipeline\<close>

text \<open>
  A \<open>Map\<close> of the language keeps its keys in the order of their first insertion; setting
  a key that is present replaces the value in place.
\<close>

fun mapSet :: "('k \<times> 'v) list \<Rightarrow> 'k \<Rightarrow> 'v \<Rightarrow> ('k \<times> 'v) list" where
  "mapSet [] k v = [(k, v)]"
| "mapSet ((k', v') # m) k v = (if k' = k then (k, v) # m else (k', v') # mapSet m k v)"

definition newMap :: "('k \<times> 'v) list \<Rightarrow> ('k \<times> 'v) list" where
  "newMap entries = foldl (\<lambda>m (k, v). mapSet m k v) [] entries"

definition mapValues :: "('k \<times> 'v) list \<Rightarrow> 'v list" where
  "mapValues m = map snd m"

definition dedup :: "place list \<Rightarrow> place list" where
  "dedup allResults = mapValues (newMap (map (\<lambda>item. (place_id item, item)) allResults))"

text \<open>\<open>xs.slice(0, e)\<close> for an integer \<open>e\<close>: a negative end counts from the end.\<close>

definition slice0 :: "'a list \<Rightarrow> int \<Rightarrow> 'a list" where
  "slice0 xs e = (if e < 0 then take (nat (int (length xs) + e)) xs else take (nat e) xs)"

text \<open>\<open>place.rating >= 3.5\<close>: an absent rating becomes NaN, and the comparison is false.\<close>

definition ratingAtLeast :: "'a place_scheme \<Rightarrow> rat \<Rightarrow> bool" where
  "ratingAtLeast p r = (case rating p of None \<Rightarrow> False | Some x \<Rightarrow> r \<le> x)"

text \<open>
  The number the comparator \<open>b.rating - a.rating\<close> reads.  It is only called on places
  that passed \<open>ratingAtLeast\<close>, which have a rating.
\<close>

definition ratingNumber :: "'a place_scheme \<Rightarrow> rat" where
  "ratingNumber p = (case rating p of None \<Rightarrow> 0 | Some x \<Rightarrow> x)"

text \<open>
  With the consistent comparator \<open>b.rating - a.rating\<close> the sort of the language is the
  stable sort by descending rating.
\<close>

definition sortByRating :: "place list \<Rightarrow> place list" where
  "sortByRating xs = sort_key (\<lambda>p. - ratingNumber p) xs"

definition searchResult :: "'d environment \<Rightarrow> searchParams \<Rightarrow> place list" where
  "searchResult env request =
     (case nearbySearch env request of
        (OK, Some results) \<Rightarrow> results
      | _ \<Rightarrow> [])"

definition allResults :: "'d environment \<Rightarrow> 'd viewState \<Rightarrow> place list" where
  "allResults env st =
     concat (map (\<lambda>request.
        searchResult env
          \<lparr>keyword = keyword request, requestType = requestType request,
           rankby = rankby request, location = currentPosition st,
           radius = searchRadius st\<rparr>)
       (getSearchRequests env (searchKeyword st)))"

definition uniqueResults :: "'d environment \<Rightarrow> 'd viewState \<Rightarrow> place list" where
  "uniqueResults env st =
     filter (\<lambda>p. isRelevantRestaurant env p (searchKeyword st)) (dedup (allResults env st))"

definition qualityFloor :: "place list \<Rightarrow> place list" where
  "qualityFloor xs = filter (\<lambda>p. ratingAtLeast p (7 / 2)) xs"

definition sortedResults :: "place list \<Rightarrow> place list" where
  "sortedResults unique = sortByRating (qualityFloor unique)"

text \<open>\<open>sortedResults.slice(0, Math.ceil(sortedResults.length / 2))\<close>\<close>

definition topHalf :: "place list \<Rightarrow> place list" where
  "topHalf ranked = take ((length ranked + 1) div 2) ranked"

text \<open>
  \<open>topHalf.sort(() => 0.5 - Math.random())\<close>, where \<open>rnd\<close> lists the successive values
  of \<open>Math.random()\<close>.
\<close>

definition shuffle :: "(rat list \<Rightarrow> 'a list \<Rightarrow> 'a list) \<Rightarrow> rat list \<Rightarrow> 'a list \<Rightarrow> 'a list" where
  "shuffle srt rnd pool = srt (map (\<lambda>r. 1 / 2 - r) rnd) pool"

definition selected :: "'d environment \<Rightarrow> rat list \<Rightarrow> 'd viewState \<Rightarrow> place list" where
  "selected env rnd st =
     slice0 (shuffle (arraySort env) rnd (topHalf (sortedResults (uniqueResults env st))))
       (numberOfRestaurants st)"

definition getPlaceDetails :: "'d environment \<Rightarrow> string \<Rightarrow> 'd option" where
  "getPlaceDetails env placeId =
     (case getDetails env placeId of (OK, d) \<Rightarrow> d | _ \<Rightarrow> None)"

definition calculateDistance ::
  "'d environment \<Rightarrow> coordinate option \<Rightarrow> coordinate option \<Rightarrow> rat option" where
  "calculateDistance env p1 p2 =
     (case (p1, p2) of
        (Some a, Some b) \<Rightarrow> computeDistanceBetween env a b
      | _ \<Rightarrow> None)"

definition enrich :: "'d environment \<Rightarrow> 'd viewState \<Rightarrow> place \<Rightarrow> 'd selectedRestaurant" where
  "enrich env st p =
     place.extend p
       (selectedRestaurant.fields (getPlaceDetails env (place_id p))
          (calculateDistance env (currentPosition st) (geometry p)))"

section \<open>Markers\<close>

text \<open>
  A function of the component either returns or throws after having changed the state.
\<close>

datatype 's completion = Returned 's | Threw 's

fun stateOf :: "'s completion \<Rightarrow> 's" where
  "stateOf (Returned s) = s"
| "stateOf (Threw s) = s"

definition updateCurrentLocationMarker :: "'d viewState \<Rightarrow> 'd viewState" where
  "updateCurrentLocationMarker st =
     (case currentPosition st of
        None \<Rightarrow> st\<lparr>locationMarkerUpdates := locationMarkerUpdates st + 1\<rparr>
      | Some pos \<Rightarrow>
          st\<lparr>currentLocationMarker :=
                Some \<lparr>position = pos, title = None, infoWindow = nextWindow st\<rparr>,
              openInfoWindows := insert (nextWindow st) (openInfoWindows st),
              nextWindow := nextWindow st + 1,
              locationMarkerUpdates := locationMarkerUpdates st + 1\<rparr>)"

text \<open>
  The loop of \<open>updateMapMarkers\<close> over the selection: a restaurant that is not operational
  is skipped; reading \<open>restaurant.geometry.location\<close> of a restaurant without geometry
  throws; otherwise the marker is pushed and its info window opened.
\<close>

fun addMarkers :: "'d selectedRestaurant list \<Rightarrow> 'd viewState \<Rightarrow> 'd viewState completion" where
  "addMarkers [] st = Returned st"
| "addMarkers (r # rs) st =
     (if business_status r \<noteq> Some OPERATIONAL then addMarkers rs st
      else (case geometry r of
              None \<Rightarrow> Threw st
            | Some loc \<Rightarrow>
                addMarkers rs
                  (st\<lparr>markers :=
                        markers st @ [\<lparr>position = loc, title = name r, infoWindow = nextWindow st\<rparr>],
                      openInfoWindows := insert (nextWindow st) (openInfoWindows st),
                      nextWindow := nextWindow st + 1\<rparr>)))"

definition updateMapMarkers :: "'d viewState \<Rightarrow> 'd viewState completion" where
  "updateMapMarkers st =
     (case addMarkers (selectedRestaurants st) (st\<lparr>markers := []\<rparr>) of
        Threw s \<Rightarrow> Threw s
      | Returned s \<Rightarrow> Returned (updateCurrentLocationMarker s))"



section \<open>The search\<close>

text \<open>
  \<open>getRandomRestaurants\<close>, taken as one step: the state is read when the search starts
  and written when the details have arrived.  \<open>rnd\<close> lists the values that
  \<open>Math.random()\<close> returns during the shuffle.  What \<open>updateMapMarkers\<close> throws is
  caught and logged; the selection has been assigned by then.
\<close>

definition getRandomRestaurants ::
  "'d environment \<Rightarrow> rat list \<Rightarrow> 'd viewState \<Rightarrow> 'd viewState" where
  "getRandomRestaurants env rnd st =
     (if \<not> service st then st
      else if \<not> isLocationReady st then st
      else if uniqueResults env st = [] then st
      else (case updateMapMarkers
                   (st\<lparr>selectedRestaurants := map (enrich env st) (selected env rnd st)\<rparr>) of
              Threw s \<Rightarrow> s
            | Returned s \<Rightarrow>
                (if selectedRestaurants s \<noteq> [] then s\<lparr>showConfetti := True\<rparr> else s)))"

section \<open>The position of the user\<close>

datatype positionError = PERMISSION_DENIED | POSITION_UNAVAILABLE | TIMEOUT | UNKNOWN

text \<open>
  What can happen after \<open>getUserLocation\<close> has asked the device: the fallback timer of
  ten seconds fires, or the device calls the success or the error callback.
\<close>

datatype locationEvent =
  TimerFired | PositionSuccess coordinate | PositionFailure positionError

definition resolve :: "'d viewState \<Rightarrow> 'd viewState" where
  "resolve st = st\<lparr>resolveCalls := resolveCalls st + 1\<rparr>"

definition setLocation :: "coordinate \<Rightarrow> 'd viewState \<Rightarrow> 'd viewState" where
  "setLocation pos st =
     resolve (updateCurrentLocationMarker
       (st\<lparr>currentPosition := Some pos, isLocationReady := True,
           readyWrites := readyWrites st + 1\<rparr>))"

text \<open>
  The body of the promise of \<open>getUserLocation\<close>: without the geolocation interface the
  default position is used at once; otherwise the timer is set and the device is asked.
\<close>

definition getUserLocation :: "bool \<Rightarrow> 'd viewState \<Rightarrow> 'd viewState" where
  "getUserLocation geolocationSupported st =
     (if \<not> geolocationSupported then setLocation defaultPosition st
      else st\<lparr>locationTimeout := True, positionPending := True\<rparr>)"

definition onLocationTimeout :: "'d viewState \<Rightarrow> 'd viewState" where
  "onLocationTimeout st = setLocation defaultPosition st"

definition onPositionSuccess :: "coordinate \<Rightarrow> 'd viewState \<Rightarrow> 'd viewState" where
  "onPositionSuccess pos st = setLocation pos (st\<lparr>locationTimeout := False\<rparr>)"

definition onPositionError :: "positionError \<Rightarrow> 'd viewState \<Rightarrow> 'd viewState" where
  "onPositionError e st = setLocation defaultPosition (st\<lparr>locationTimeout := False\<rparr>)"

text \<open>
  The event loop runs one callback at a time.  A timer fires once, and only while it is
  pending (it has not fired and \<open>clearTimeout\<close> has not been called); the device calls
  one of its two callbacks, once.
\<close>

fun locationStep :: "'d viewState \<Rightarrow> locationEvent \<Rightarrow> 'd viewState" where
  "locationStep st TimerFired =
     (if locationTimeout st then onLocationTimeout (st\<lparr>locationTimeout := False\<rparr>) else st)"
| "locationStep st (PositionSuccess pos) =
     (if positionPending st then onPositionSuccess pos (st\<lparr>positionPending := False\<rparr>) else st)"
| "locationStep st (PositionFailure e) =
     (if positionPending st then onPositionError e (st\<lparr>positionPending := False\<rparr>) else st)"

definition locationRun :: "bool \<Rightarrow> locationEvent list \<Rightarrow> 'd viewState \<Rightarrow> 'd viewState" where
  "locationRun geolocationSupported events st =
     foldl locationStep (getUserLocation geolocationSupported st) events"

section \<open>A sort for short arrays, and the random source\<close>

text \<open>
  The insertion sort that engines run on short arrays: the element is compared with the
  sorted part from the right, and moves left while the comparator returns a positive
  number.  The sorted part is held reversed.  The comparator returns the next number of
  \<open>vs\<close>; when \<open>vs\<close> is used up the element stays where it is.
\<close>

fun insertFromRight :: "rat list \<Rightarrow> 'a \<Rightarrow> 'a list \<Rightarrow> 'a list \<times> rat list" where
  "insertFromRight vs x [] = ([x], vs)"
| "insertFromRight [] x (t # rest) = (x # t # rest, [])"
| "insertFromRight (v # vs) x (t # rest) =
     (if 0 < v
      then (case insertFromRight vs x rest of (r, vs') \<Rightarrow> (t # r, vs'))
      else (x # t # rest, vs))"

fun insertionLoop :: "rat list \<Rightarrow> 'a list \<Rightarrow> 'a list \<Rightarrow> 'a list" where
  "insertionLoop vs done [] = rev done"
| "insertionLoop vs done (x # xs) =
     (case insertFromRight vs x done of (done', vs') \<Rightarrow> insertionLoop vs' done' xs)"

definition insertionSort :: "rat list \<Rightarrow> 'a list \<Rightarrow> 'a list" where
  "insertionSort vs xs = insertionLoop vs [] xs"

text \<open>
  Instances of the two string built-ins for the scenarios below.  They are what the
  built-ins do on the strings used there, whose letters and spaces are ASCII: the
  letters A to Z are lowered, and the ASCII white space and line terminators are
  stripped from both ends.  They are not the built-ins on other strings, and no theorem
  about all environments uses them.
\<close>

definition asciiSpace :: "char \<Rightarrow> bool" where
  "asciiSpace c = (c \<in> set [CHR 0x20, CHR 0x09, CHR 0x0A, CHR 0x0B, CHR 0x0C, CHR 0x0D])"

definition asciiTrim :: "string \<Rightarrow> string" where
  "asciiTrim s = rev (dropWhile asciiSpace (rev (dropWhile asciiSpace s)))"

definition asciiLowerChar :: "char \<Rightarrow> char" where
  "asciiLowerChar c =
     (if (65::nat) \<le> of_char c \<and> of_char c \<le> (90::nat)
      then char_of (of_char c + (32::nat)) else c)"

definition asciiToLowerCase :: "string \<Rightarrow> string" where
  "asciiToLowerCase s = map asciiLowerChar s"




definition permuting :: "(rat list \<Rightarrow> 'a list \<Rightarrow> 'a list) \<Rightarrow> bool" where
  "permuting srt = (\<forall>vs xs. mset (srt vs xs) = mset xs)"

section \<open>A scenario\<close>

text \<open>
  Ten operational places with the ratings 5, 4.8, 4.5, 4.2, 4.0, 3.8, 3.6, 3.4, 3.2 and
  3.0, all named by the hot-pot keyword and found by a search for it with the count 3.
\<close>

definition scenarioPlace :: "char \<Rightarrow> rat \<Rightarrow> place" where
  "scenarioPlace c r =
     \<lparr>place_id = [CHR ''p'', c], name = Some hotPot, rating = Some r,
      business_status = Some OPERATIONAL, types = Some [''restaurant''],
      vicinity = None, geometry = Some defaultPosition\<rparr>"

definition scenarioPlaces :: "place list" where
  "scenarioPlaces =
     [scenarioPlace CHR ''0'' 5, scenarioPlace CHR ''1'' (48 / 10),
      scenarioPlace CHR ''2'' (45 / 10), scenarioPlace CHR ''3'' (42 / 10),
      scenarioPlace CHR ''4'' 4, scenarioPlace CHR ''5'' (38 / 10),
      scenarioPlace CHR ''6'' (36 / 10), scenarioPlace CHR ''7'' (34 / 10),
      scenarioPlace CHR ''8'' (32 / 10), scenarioPlace CHR ''9'' 3]"

definition scenarioEnvironment :: "unit environment" where
  "scenarioEnvironment =
     \<lparr>nearbySearch = (\<lambda>request. (OK, Some scenarioPlaces)),
      getDetails = (\<lambda>placeId. (NOT_FOUND, None)),
      computeDistanceBetween = (\<lambda>a b. None),
      arraySort = insertionSort, toLowerCase = asciiToLowerCase, trim = asciiTrim\<rparr>"

definition scenarioState :: "unit viewState" where
  "scenarioState =
     \<lparr>service = True, isLocationReady = True, currentPosition = Some defaultPosition,
      numberOfRestaurants = 3, searchRadius = 1500, searchKeyword = hotPot,
      selectedRestaurants = [], markers = [], currentLocationMarker = None,
      openInfoWindows = {}, nextWindow = 0, showConfetti = False,
      locationTimeout = False, positionPending = False, readyWrites = 0,
      locationMarkerUpdates = 0, resolveCalls = 0\<rparr>"

text \<open>The same search when the provider also reports a place that has no rating.\<close>

definition unratedPlace :: place where
  "unratedPlace = (scenarioPlace CHR ''u'' 0)\<lparr>rating := None\<rparr>"

definition unratedEnvironment :: "unit environment" where
  "unratedEnvironment =
     scenarioEnvironment\<lparr>nearbySearch := (\<lambda>request. (OK, Some (unratedPlace # scenarioPlaces)))\<rparr>"

text \<open>The same search when the provider reports the places worst first.\<close>

definition reversedEnvironment :: "unit environment" where
  "reversedEnvironment =
     scenarioEnvironment\<lparr>nearbySearch := (\<lambda>request. (OK, Some (rev scenarioPlaces)))\<rparr>"



section \<open>The request builder\<close>

lemma getSearchRequests_cases:
  "getSearchRequests env kw =
     (if trim env kw = [] then [\<lparr>keyword = None, requestType = ''restaurant'', rankby = None\<rparr>]
      else [\<lparr>keyword =
               Some ((if str_includes kw hotPot then hotPot else trim env kw) @ restaurantSuffix),
              requestType = ''restaurant'', rankby = Some ''rating''\<rparr>])"
  by (simp add: getSearchRequests_def)

text \<open>
  Claim C10.  For every keyword, and whatever \<open>trim\<close> of the language does, the builder
  returns exactly one request: the request without keyword when the trimmed keyword is
  empty, and otherwise one request ranked by rating whose keyword is the hot-pot literal
  or the trimmed keyword, followed by the restaurant suffix.  So all results of a search
  are the results of a single request, and no place is reported twice because two
  requests overlap.
\<close>

theorem getSearchRequests_single:
  "length (getSearchRequests env kw) = 1
   \<and> (trim env kw = [] \<longrightarrow>
        getSearchRequests env kw =
          [\<lparr>keyword = None, requestType = ''restaurant'', rankby = None\<rparr>])
   \<and> (trim env kw \<noteq> [] \<longrightarrow>
        getSearchRequests env kw =
          [\<lparr>keyword =
              Some ((if str_includes kw hotPot then hotPot else trim env kw) @ restaurantSuffix),
            requestType = ''restaurant'', rankby = Some ''rating''\<rparr>])
   \<and> (\<exists>request. allResults env st = searchResult env request)"
  by (auto simp: getSearchRequests_cases allResults_def)

theorem getSearchRequests_single_witness:
  "trim scenarioEnvironment ''  '' = [] \<and> trim scenarioEnvironment '' pizza '' \<noteq> []
   \<and> getSearchRequests scenarioEnvironment ''  ''
       = [\<lparr>keyword = None, requestType = ''restaurant'', rankby = None\<rparr>]
   \<and> getSearchRequests scenarioEnvironment '' pizza '' =
       [\<lparr>keyword = Some (''pizza'' @ restaurantSuffix), requestType = ''restaurant'',
         rankby = Some ''rating''\<rparr>]
   \<and> getSearchRequests scenarioEnvironment ('' '' @ hotPot) =
       [\<lparr>keyword = Some (hotPot @ restaurantSuffix), requestType = ''restaurant'',
         rankby = Some ''rating''\<rparr>]"
proof -
  have t: "trim scenarioEnvironment ''  '' = []"
      "trim scenarioEnvironment '' pizza '' = ''pizza''"
      "trim scenarioEnvironment ('' '' @ hotPot) = hotPot"
    by (simp_all add: scenarioEnvironment_def asciiTrim_def asciiSpace_def hotPot_def)
  have h: "\<not> str_includes '' pizza '' hotPot" "str_includes ('' '' @ hotPot) hotPot"
    by (simp_all add: hotPot_def)
  from getSearchRequests_single [of scenarioEnvironment "''  ''" scenarioState]
    getSearchRequests_single [of scenarioEnvironment "'' pizza ''" scenarioState]
    getSearchRequests_single [of scenarioEnvironment "'' '' @ hotPot" scenarioState]
    t h
  show ?thesis by (simp add: hotPot_def)
qed

section \<open>The relevance filter\<close>

lemma startsWith_iff: "startsWith s t \<longleftrightarrow> (\<exists>ss. s = t @ ss)"
  by (induction s t rule: startsWith.induct) auto

lemma str_includes_iff: "str_includes s t \<longleftrightarrow> sublist t s"
proof (induction s)
  case Nil
  then show ?case by auto
next
  case (Cons c s)
  have "startsWith (c # s) t \<longleftrightarrow> prefix t (c # s)"
    by (simp only: startsWith_iff prefix_def)
  with Cons show ?case
    by (simp add: sublist_Cons_right)
qed

lemma fieldIncludes_iff:
  "fieldIncludes env field (toLowerCase env kw)
     \<longleftrightarrow> (\<exists>s. field = Some s \<and> sublist (toLowerCase env kw) (toLowerCase env s))"
  by (cases field) (simp_all add: fieldIncludes_def str_includes_iff)

text \<open>
  Claim C7.  Whatever \<open>toLowerCase\<close> of the language does: the filter rejects every place
  whose business status is not OPERATIONAL, whatever the keyword; with the empty keyword
  it accepts every operational place; with a keyword that is not empty it accepts an
  operational place exactly when the lowered keyword occurs in the lowered name, in a
  lowered category tag or in the lowered address.  (The order of the three tests cannot
  be observed: they have no effect.)
\<close>

theorem isRelevantRestaurant_spec:
  "(business_status p \<noteq> Some OPERATIONAL \<longrightarrow> \<not> isRelevantRestaurant env p kw)
   \<and> (business_status p = Some OPERATIONAL \<longrightarrow> isRelevantRestaurant env p [])
   \<and> (business_status p = Some OPERATIONAL \<and> kw \<noteq> [] \<longrightarrow>
        isRelevantRestaurant env p kw =
          ((\<exists>s. name p = Some s \<and> sublist (toLowerCase env kw) (toLowerCase env s))
           \<or> (\<exists>ts. types p = Some ts
                 \<and> (\<exists>t \<in> set ts. sublist (toLowerCase env kw) (toLowerCase env t)))
           \<or> (\<exists>s. vicinity p = Some s
                 \<and> sublist (toLowerCase env kw) (toLowerCase env s))))"
proof (intro conjI impI)
  assume "business_status p \<noteq> Some OPERATIONAL"
  then show "\<not> isRelevantRestaurant env p kw" by (simp add: isRelevantRestaurant_def)
next
  assume "business_status p = Some OPERATIONAL"
  then show "isRelevantRestaurant env p []" by (simp add: isRelevantRestaurant_def)
next
  assume a: "business_status p = Some OPERATIONAL \<and> kw \<noteq> []"
  have t: "(case types p of None \<Rightarrow> False
            | Some ts \<Rightarrow>
                list_ex (\<lambda>t. str_includes (toLowerCase env t) (toLowerCase env kw)) ts)
           \<longleftrightarrow> (\<exists>ts. types p = Some ts
                 \<and> (\<exists>t \<in> set ts. sublist (toLowerCase env kw) (toLowerCase env t)))"
    by (cases "types p") (simp_all add: list_ex_iff str_includes_iff)
  show "isRelevantRestaurant env p kw =
          ((\<exists>s. name p = Some s \<and> sublist (toLowerCase env kw) (toLowerCase env s))
           \<or> (\<exists>ts. types p = Some ts
                 \<and> (\<exists>t \<in> set ts. sublist (toLowerCase env kw) (toLowerCase env t)))
           \<or> (\<exists>s. vicinity p = Some s
                 \<and> sublist (toLowerCase env kw) (toLowerCase env s)))"
    using a by (simp add: isRelevantRestaurant_def Let_def fieldIncludes_iff t)
qed

theorem isRelevantRestaurant_spec_witness:
  "\<not> isRelevantRestaurant scenarioEnvironment
       \<lparr>place_id = ''c'', name = Some ''Pizza Roma'', rating = Some 4,
        business_status = Some CLOSED_TEMPORARILY, types = None, vicinity = None,
        geometry = None\<rparr> ''PIZZA''
   \<and> isRelevantRestaurant scenarioEnvironment
       \<lparr>place_id = ''s'', name = Some ''Sushi Bar'', rating = None,
        business_status = Some OPERATIONAL, types = Some [''restaurant''],
        vicinity = Some ''1 Main St'', geometry = None\<rparr> []
   \<and> isRelevantRestaurant scenarioEnvironment
       \<lparr>place_id = ''o'', name = Some ''Pizza Roma'', rating = Some 4,
        business_status = Some OPERATIONAL, types = Some [''restaurant''], vicinity = None,
        geometry = None\<rparr> ''PIZZA''
   \<and> \<not> isRelevantRestaurant scenarioEnvironment
       \<lparr>place_id = ''s'', name = Some ''Sushi Bar'', rating = None,
        business_status = Some OPERATIONAL, types = Some [''restaurant''],
        vicinity = Some ''1 Main St'', geometry = None\<rparr> ''PIZZA''
   \<and> isRelevantRestaurant scenarioEnvironment
       \<lparr>place_id = ''s'', name = Some ''Sushi Bar'', rating = None,
        business_status = Some OPERATIONAL, types = Some [''restaurant''],
        vicinity = Some ''1 Main St'', geometry = None\<rparr> ''main''"
proof -
  let ?closed = "\<lparr>place_id = ''c'', name = Some ''Pizza Roma'', rating = Some 4,
        business_status = Some CLOSED_TEMPORARILY, types = None, vicinity = None,
        geometry = None\<rparr>"
  let ?pizza = "\<lparr>place_id = ''o'', name = Some ''Pizza Roma'', rating = Some 4,
        business_status = Some OPERATIONAL, types = Some [''restaurant''], vicinity = None,
        geometry = None\<rparr>"
  let ?sushi = "\<lparr>place_id = ''s'', name = Some ''Sushi Bar'', rating = None,
        business_status = Some OPERATIONAL, types = Some [''restaurant''],
        vicinity = Some ''1 Main St'', geometry = None\<rparr>"
  let ?low = "toLowerCase scenarioEnvironment"
  have y: "sublist (?low ''PIZZA'') (?low ''Pizza Roma'')"
      "sublist (?low ''main'') (?low ''1 Main St'')"
    unfolding str_includes_iff [symmetric] by code_simp+
  have n: "\<not> sublist (?low ''PIZZA'') (?low ''Sushi Bar'')"
      "\<not> sublist (?low ''PIZZA'') (?low ''restaurant'')"
      "\<not> sublist (?low ''PIZZA'') (?low ''1 Main St'')"
    unfolding str_includes_iff [symmetric] by code_simp+
  have 1: "\<not> isRelevantRestaurant scenarioEnvironment ?closed ''PIZZA''"
    using isRelevantRestaurant_spec [of ?closed scenarioEnvironment "''PIZZA''"] by simp
  have 2: "isRelevantRestaurant scenarioEnvironment ?sushi []"
    using isRelevantRestaurant_spec [of ?sushi scenarioEnvironment "[]"] by simp
  have 3: "isRelevantRestaurant scenarioEnvironment ?pizza ''PIZZA''"
    using isRelevantRestaurant_spec [of ?pizza scenarioEnvironment "''PIZZA''"] y(1) by simp
  have 4: "\<not> isRelevantRestaurant scenarioEnvironment ?sushi ''PIZZA''"
    using isRelevantRestaurant_spec [of ?sushi scenarioEnvironment "''PIZZA''"] n by simp
  have 5: "isRelevantRestaurant scenarioEnvironment ?sushi ''main''"
    using isRelevantRestaurant_spec [of ?sushi scenarioEnvironment "''main''"] y(2) by simp
  from 1 2 3 4 5 show ?thesis by blast
qed

section \<open>Removing duplicates\<close>

lemma mapSet_keys:
  "map fst (mapSet m k v) = (if k \<in> fst ` set m then map fst m else map fst m @ [k])"
  by (induction m k v rule: mapSet.induct) auto

lemma mapSet_distinct: "distinct (map fst m) \<Longrightarrow> distinct (map fst (mapSet m k v))"
  by (simp add: mapSet_keys)

lemma mapSet_map_of: "map_of (mapSet m k v) = (map_of m)(k \<mapsto> v)"
  by (induction m k v rule: mapSet.induct) auto

lemma foldl_mapSet_distinct:
  "distinct (map fst m) \<Longrightarrow> distinct (map fst (foldl (\<lambda>m (k, v). mapSet m k v) m es))"
  by (induction es arbitrary: m) (auto simp: mapSet_distinct)

lemma foldl_mapSet_map_of:
  "map_of (foldl (\<lambda>m (k, v). mapSet m k v) m es) = map_of m ++ map_of (rev es)"
  by (induction es arbitrary: m)
    (auto simp: mapSet_map_of map_add_def fun_eq_iff split: option.splits)

lemma newMap_distinct: "distinct (map fst (newMap es))"
  by (simp add: newMap_def foldl_mapSet_distinct)

lemma newMap_map_of: "map_of (newMap es) = map_of (rev es)"
  by (simp add: newMap_def foldl_mapSet_map_of)

lemma map_of_keyed: "map_of (map (\<lambda>x. (f x, x)) ys) k = find (\<lambda>q. f q = k) ys"
  by (induction ys) auto

lemma find_key: "find (\<lambda>q. f q = k) ys = Some p \<Longrightarrow> f p = k"
  by (induction ys) (auto split: if_splits)

lemma dedup_lookup:
  "map_of (newMap (map (\<lambda>item. (place_id item, item)) xs)) k
     = find (\<lambda>q. place_id q = k) (rev xs)"
  by (simp add: newMap_map_of rev_map map_of_keyed)

lemma dedup_entry:
  assumes "(k, p) \<in> set (newMap (map (\<lambda>item. (place_id item, item)) xs))"
  shows "find (\<lambda>q. place_id q = k) (rev xs) = Some p"
  using assms newMap_distinct [of "map (\<lambda>item. (place_id item, item)) xs"]
  by (simp add: dedup_lookup [symmetric])

lemma dedup_keys:
  "map place_id (dedup xs) = map fst (newMap (map (\<lambda>item. (place_id item, item)) xs))"
proof -
  have "place_id p = k"
    if "(k, p) \<in> set (newMap (map (\<lambda>item. (place_id item, item)) xs))" for k p
    using dedup_entry [OF that] by (rule find_key)
  then show ?thesis
    by (auto simp: dedup_def mapValues_def)
qed

lemma dedup_distinct: "distinct (map place_id (dedup xs))"
  by (simp add: dedup_keys newMap_distinct)

text \<open>
  Claim C3.  For every list of places the step that removes duplicates keeps exactly one
  entry for each identifier of the list, and the entry kept for an identifier is the last
  place of the list that has it.
\<close>

theorem dedup_last_occurrence:
  "distinct (map place_id (dedup xs))
   \<and> set (map place_id (dedup xs)) = set (map place_id xs)
   \<and> (\<forall>p \<in> set (dedup xs). find (\<lambda>q. place_id q = place_id p) (rev xs) = Some p)"
proof (intro conjI ballI)
  show "distinct (map place_id (dedup xs))"
    by (rule dedup_distinct)
next
  have "set (map fst (newMap es)) = set (map fst es)" for es :: "(string \<times> place) list"
  proof -
    have "dom (map_of (newMap es)) = dom (map_of (rev es))" by (simp add: newMap_map_of)
    then show ?thesis by (simp add: dom_map_of_conv_image_fst)
  qed
  then show "set (map place_id (dedup xs)) = set (map place_id xs)"
    by (simp add: dedup_keys image_image)
next
  fix p assume "p \<in> set (dedup xs)"
  then obtain k where kp: "(k, p) \<in> set (newMap (map (\<lambda>item. (place_id item, item)) xs))"
    by (auto simp: dedup_def mapValues_def)
  from dedup_entry [OF kp] have f: "find (\<lambda>q. place_id q = k) (rev xs) = Some p" .
  from find_key [OF f] have "place_id p = k" .
  with f show "find (\<lambda>q. place_id q = place_id p) (rev xs) = Some p" by simp
qed

theorem dedup_last_occurrence_witness:
  "dedup [scenarioPlace CHR ''0'' 3, scenarioPlace CHR ''1'' 4, scenarioPlace CHR ''0'' 5]
     = [scenarioPlace CHR ''0'' 5, scenarioPlace CHR ''1'' 4]
   \<and> scenarioPlace CHR ''0'' 5
       \<in> set (dedup [scenarioPlace CHR ''0'' 3, scenarioPlace CHR ''1'' 4,
                     scenarioPlace CHR ''0'' 5])
   \<and> find (\<lambda>q. place_id q = place_id (scenarioPlace CHR ''0'' 5))
        (rev [scenarioPlace CHR ''0'' 3, scenarioPlace CHR ''1'' 4, scenarioPlace CHR ''0'' 5])
       = Some (scenarioPlace CHR ''0'' 5)"
proof -
  have d: "dedup [scenarioPlace CHR ''0'' 3, scenarioPlace CHR ''1'' 4, scenarioPlace CHR ''0'' 5]
             = [scenarioPlace CHR ''0'' 5, scenarioPlace CHR ''1'' 4]"
    by (simp add: dedup_def newMap_def mapValues_def scenarioPlace_def)
  then have m: "scenarioPlace CHR ''0'' 5
       \<in> set (dedup [scenarioPlace CHR ''0'' 3, scenarioPlace CHR ''1'' 4,
                     scenarioPlace CHR ''0'' 5])"
    by simp
  from dedup_last_occurrence
         [of "[scenarioPlace CHR ''0'' 3, scenarioPlace CHR ''1'' 4, scenarioPlace CHR ''0'' 5]"]
       m
  have "find (\<lambda>q. place_id q = place_id (scenarioPlace CHR ''0'' 5))
        (rev [scenarioPlace CHR ''0'' 3, scenarioPlace CHR ''1'' 4, scenarioPlace CHR ''0'' 5])
       = Some (scenarioPlace CHR ''0'' 5)"
    by blast
  with d m show ?thesis by blast
qed

section \<open>The sort, the shuffle and the random source\<close>

lemma insertFromRight_mset:
  "mset (fst (insertFromRight vs x done)) = add_mset x (mset done)"
  by (induction vs x "done" rule: insertFromRight.induct) (auto split: prod.splits)

lemma insertionLoop_mset: "mset (insertionLoop vs done xs) = mset done + mset xs"
proof (induction xs arbitrary: vs "done")
  case Nil
  show ?case by simp
next
  case (Cons x xs)
  obtain done' vs' where i: "insertFromRight vs x done = (done', vs')"
    by (cases "insertFromRight vs x done")
  then have "mset done' = add_mset x (mset done)"
    using insertFromRight_mset [of vs x "done"] by simp
  with i Cons [of vs' done'] show ?case by simp
qed

lemma insertionSort_permuting: "permuting insertionSort"
  by (simp add: permuting_def insertionSort_def insertionLoop_mset)

lemma shuffle_mset: "permuting srt \<Longrightarrow> mset (shuffle srt rnd pool) = mset pool"
  by (simp add: permuting_def shuffle_def)

lemma shuffle_set: "permuting srt \<Longrightarrow> set (shuffle srt rnd pool) = set pool"
  using shuffle_mset [of srt rnd pool] by (metis set_mset_mset)

lemma shuffle_length: "permuting srt \<Longrightarrow> length (shuffle srt rnd pool) = length pool"
  using shuffle_mset [of srt rnd pool] by (metis size_mset)

lemma shuffle_distinct: "permuting srt \<Longrightarrow> distinct (shuffle srt rnd pool) = distinct pool"
  using shuffle_mset [of srt rnd pool] by (metis mset_eq_imp_distinct_iff)




section \<open>The stages of the pipeline\<close>

lemma slice0_nonneg: "0 \<le> e \<Longrightarrow> slice0 xs e = take (nat e) xs"
  by (simp add: slice0_def)

lemma slice0_subset: "set (slice0 xs e) \<subseteq> set xs"
  by (auto simp: slice0_def dest: in_set_takeD)

lemma addMarkers_selected:
  "selectedRestaurants (stateOf (addMarkers rs st)) = selectedRestaurants st"
  by (induction rs arbitrary: st) (auto split: option.splits)

lemma updateCurrentLocationMarker_selected:
  "selectedRestaurants (updateCurrentLocationMarker st) = selectedRestaurants st"
  by (simp add: updateCurrentLocationMarker_def split: option.splits)

lemma updateMapMarkers_selected:
  "selectedRestaurants (stateOf (updateMapMarkers st)) = selectedRestaurants st"
proof (cases "addMarkers (selectedRestaurants st) (st\<lparr>markers := []\<rparr>)")
  case (Returned s)
  with addMarkers_selected [of "selectedRestaurants st" "st\<lparr>markers := []\<rparr>"]
  show ?thesis by (simp add: updateMapMarkers_def updateCurrentLocationMarker_selected)
next
  case (Threw s)
  with addMarkers_selected [of "selectedRestaurants st" "st\<lparr>markers := []\<rparr>"]
  show ?thesis by (simp add: updateMapMarkers_def)
qed

lemma getRandomRestaurants_selected:
  "selectedRestaurants (getRandomRestaurants env rnd st) =
     (if service st \<and> isLocationReady st \<and> uniqueResults env st \<noteq> []
      then map (enrich env st) (selected env rnd st) else selectedRestaurants st)"
proof -
  let ?st = "st\<lparr>selectedRestaurants := map (enrich env st) (selected env rnd st)\<rparr>"
  have "selectedRestaurants
          (case updateMapMarkers ?st of
             Threw s \<Rightarrow> s
           | Returned s \<Rightarrow> (if selectedRestaurants s \<noteq> [] then s\<lparr>showConfetti := True\<rparr> else s))
        = map (enrich env st) (selected env rnd st)"
    using updateMapMarkers_selected [of ?st]
    by (cases "updateMapMarkers ?st") simp_all
  then show ?thesis by (simp add: getRandomRestaurants_def)
qed

lemma truncate_enrich: "place.truncate (enrich env st p) = p"
  by (simp add: enrich_def place.defs selectedRestaurant.defs)

lemma rating_enrich: "rating (enrich env st p) = rating p"
  by (simp add: enrich_def place.defs selectedRestaurant.defs)

lemma sortedResults_mset: "mset (sortedResults u) = mset (qualityFloor u)"
  by (simp add: sortedResults_def sortByRating_def)

lemma sortedResults_sorted:
  "sorted_wrt (\<lambda>a b. ratingNumber b \<le> ratingNumber a) (sortedResults u)"
proof -
  have "sorted (map (\<lambda>p. - ratingNumber p) (sortedResults u))"
    by (simp add: sortedResults_def sortByRating_def)
  then show ?thesis
    by (simp add: sorted_map sorted_wrt_iff_nth_less)
qed

lemma topHalf_outranks:
  assumes "p \<in> set (topHalf (sortedResults u))"
    and "q \<in> set (drop ((length (sortedResults u) + 1) div 2) (sortedResults u))"
  shows "ratingNumber q \<le> ratingNumber p"
proof -
  let ?s = "sortedResults u" and ?n = "(length (sortedResults u) + 1) div 2"
  have "sorted_wrt (\<lambda>a b. ratingNumber b \<le> ratingNumber a) (take ?n ?s @ drop ?n ?s)"
    using sortedResults_sorted [of u] by simp
  then show ?thesis using assms unfolding sorted_wrt_append topHalf_def by blast
qed

lemma qualityFloor_rating:
  "p \<in> set (qualityFloor xs) \<Longrightarrow> \<exists>x. rating p = Some x \<and> 7 / 2 \<le> x"
  by (cases "rating p") (simp_all add: qualityFloor_def ratingAtLeast_def)

lemma topHalf_subset: "set (topHalf xs) \<subseteq> set xs"
  unfolding topHalf_def by (rule set_take_subset)

lemma selected_subset:
  assumes "permuting (arraySort env)"
  shows "set (selected env rnd st) \<subseteq> set (topHalf (sortedResults (uniqueResults env st)))"
proof -
  have "set (selected env rnd st)
          \<subseteq> set (shuffle (arraySort env) rnd (topHalf (sortedResults (uniqueResults env st))))"
    unfolding selected_def by (rule slice0_subset)
  then show ?thesis using shuffle_set [OF assms] by simp
qed

lemma selected_rating:
  assumes "permuting (arraySort env)" and "p \<in> set (selected env rnd st)"
  shows "\<exists>x. rating p = Some x \<and> 7 / 2 \<le> x"
proof -
  from assms have "p \<in> set (topHalf (sortedResults (uniqueResults env st)))"
    using selected_subset by blast
  then have "p \<in> set (sortedResults (uniqueResults env st))"
    using topHalf_subset by blast
  then have "p \<in> set_mset (mset (sortedResults (uniqueResults env st)))" by simp
  then have "p \<in> set (qualityFloor (uniqueResults env st))"
    unfolding sortedResults_mset by simp
  then show ?thesis by (rule qualityFloor_rating)
qed

text \<open>
  Claim C4.  When no place is left after the duplicates are removed and the filter is
  applied, the search returns at once: the state is the state before the search, and so
  is the selection on display.  Nothing is thrown: the search is a total function, and
  what \<open>updateMapMarkers\<close> throws on the other path is caught.
\<close>

theorem empty_search_keeps_selection:
  "uniqueResults env st = [] \<Longrightarrow>
     getRandomRestaurants env rnd st = st
     \<and> selectedRestaurants (getRandomRestaurants env rnd st) = selectedRestaurants st"
  by (simp add: getRandomRestaurants_def)

theorem empty_search_keeps_selection_witness:
  "uniqueResults
      (scenarioEnvironment
         \<lparr>nearbySearch :=
            (\<lambda>request. (OK, Some [(scenarioPlace CHR ''0'' 5)
                                    \<lparr>business_status := Some CLOSED_PERMANENTLY\<rparr>]))\<rparr>)
      (scenarioState
         \<lparr>selectedRestaurants :=
            [enrich scenarioEnvironment scenarioState (scenarioPlace CHR ''1'' 4)]\<rparr>) = []
   \<and> selectedRestaurants
       (getRandomRestaurants
         (scenarioEnvironment
            \<lparr>nearbySearch :=
               (\<lambda>request. (OK, Some [(scenarioPlace CHR ''0'' 5)
                                       \<lparr>business_status := Some CLOSED_PERMANENTLY\<rparr>]))\<rparr>)
         [0, 0, 0]
         (scenarioState
            \<lparr>selectedRestaurants :=
               [enrich scenarioEnvironment scenarioState (scenarioPlace CHR ''1'' 4)]\<rparr>))
     = [enrich scenarioEnvironment scenarioState (scenarioPlace CHR ''1'' 4)]"
proof -
  let ?env = "scenarioEnvironment
         \<lparr>nearbySearch :=
            (\<lambda>request. (OK, Some [(scenarioPlace CHR ''0'' 5)
                                    \<lparr>business_status := Some CLOSED_PERMANENTLY\<rparr>]))\<rparr>"
  let ?st = "scenarioState
         \<lparr>selectedRestaurants :=
            [enrich scenarioEnvironment scenarioState (scenarioPlace CHR ''1'' 4)]\<rparr>"
  have u: "uniqueResults ?env ?st = []"
    by (simp add: uniqueResults_def isRelevantRestaurant_def dedup_def scenarioPlace_def
        allResults_def getSearchRequests_cases searchResult_def newMap_def mapValues_def)
  from empty_search_keeps_selection [OF u, of "[0, 0, 0]"] u show ?thesis by simp
qed

section \<open>The scenario\<close>

lemma scenario_dedup: "dedup scenarioPlaces = scenarioPlaces"
  by code_simp

lemma scenarioPlace_relevant: "isRelevantRestaurant env (scenarioPlace c r) hotPot"
proof -
  have "hotPot \<noteq> []" by (simp add: hotPot_def)
  moreover have "str_includes (toLowerCase env hotPot) (toLowerCase env hotPot)"
    by (simp add: str_includes_iff)
  ultimately show ?thesis
    by (simp add: isRelevantRestaurant_def scenarioPlace_def fieldIncludes_def)
qed

lemma scenario_relevant:
  "filter (\<lambda>p. isRelevantRestaurant env p hotPot) scenarioPlaces = scenarioPlaces"
  by (simp add: scenarioPlaces_def scenarioPlace_relevant)

lemma scenario_sorted: "sortedResults scenarioPlaces = take 7 scenarioPlaces"
  by code_simp

lemma scenario_floor: "qualityFloor scenarioPlaces = take 7 scenarioPlaces"
  by code_simp

lemma scenario_topHalf: "topHalf (take 7 scenarioPlaces) = take 4 scenarioPlaces"
  by code_simp

lemma scenario_distinct: "distinct scenarioPlaces"
  by code_simp

lemma scenario_length: "length scenarioPlaces = 10"
  by (simp add: scenarioPlaces_def)

lemma scenario_unique:
  assumes "\<forall>request. nearbySearch env request = (OK, Some scenarioPlaces)"
    and "searchKeyword st = hotPot"
  shows "uniqueResults env st = scenarioPlaces"
proof -
  have "searchResult env request = scenarioPlaces" for request
    using assms(1) by (simp add: searchResult_def)
  then have "allResults env st = scenarioPlaces"
    by (simp add: allResults_def getSearchRequests_cases)
  then show ?thesis
    by (simp add: uniqueResults_def assms(2) scenario_dedup scenario_relevant)
qed

lemma scenario_nearbySearch:
  "\<forall>request. nearbySearch scenarioEnvironment request = (OK, Some scenarioPlaces)"
  by (simp add: scenarioEnvironment_def)

lemma scenario_arraySort: "permuting (arraySort scenarioEnvironment)"
  by (simp add: scenarioEnvironment_def insertionSort_permuting)

lemma scenario_selected_0:
  "selected scenarioEnvironment [0, 0, 0, 0, 0, 0] scenarioState =
     [scenarioPlace CHR ''3'' (42 / 10), scenarioPlace CHR ''2'' (45 / 10),
      scenarioPlace CHR ''1'' (48 / 10)]"
  by code_simp

lemma scenario_selected_1:
  "selected scenarioEnvironment [3 / 4, 3 / 4, 3 / 4, 3 / 4, 3 / 4, 3 / 4] scenarioState =
     [scenarioPlace CHR ''0'' 5, scenarioPlace CHR ''1'' (48 / 10),
      scenarioPlace CHR ''2'' (45 / 10)]"
  by code_simp


text \<open>
  Claim C1, as the code has it.  In the scenario the floor of 3.5 excludes the three
  places rated 3.4, 3.2 and 3.0 and keeps seven; the top half of seven, rounded up, is
  the four best places; with the count 3 the search returns three different places of
  these four, and which three depends on the shuffle.
\<close>

theorem scenario_selection:
  assumes "\<forall>request. nearbySearch env request = (OK, Some scenarioPlaces)"
    and "searchKeyword st = hotPot"
    and "numberOfRestaurants st = 3"
    and "permuting (arraySort env)"
  shows "uniqueResults env st = scenarioPlaces
     \<and> qualityFloor (uniqueResults env st) = take 7 scenarioPlaces
     \<and> topHalf (sortedResults (uniqueResults env st)) = take 4 scenarioPlaces
     \<and> length (selected env rnd st) = 3
     \<and> distinct (selected env rnd st)
     \<and> set (selected env rnd st) \<subseteq> set (take 4 scenarioPlaces)
     \<and> (service st \<and> isLocationReady st \<longrightarrow>
          map place.truncate (selectedRestaurants (getRandomRestaurants env rnd st))
            = selected env rnd st)"
proof -
  have u: "uniqueResults env st = scenarioPlaces"
    using assms(1,2) by (rule scenario_unique)
  have t: "topHalf (sortedResults (uniqueResults env st)) = take 4 scenarioPlaces"
    by (simp only: u scenario_sorted scenario_topHalf)
  have s: "selected env rnd st = take 3 (shuffle (arraySort env) rnd (take 4 scenarioPlaces))"
    by (simp add: selected_def t assms(3) slice0_nonneg)
  have l: "length (shuffle (arraySort env) rnd (take 4 scenarioPlaces)) = 4"
    using shuffle_length [OF assms(4), of rnd "take 4 scenarioPlaces"]
    by (simp add: scenario_length)
  have d: "distinct (shuffle (arraySort env) rnd (take 4 scenarioPlaces))"
    using shuffle_distinct [OF assms(4), of rnd "take 4 scenarioPlaces"] scenario_distinct
    by simp
  have sub: "set (selected env rnd st) \<subseteq> set (take 4 scenarioPlaces)"
    using selected_subset [OF assms(4), of rnd st] by (simp only: t)
  have r: "service st \<and> isLocationReady st \<longrightarrow>
          map place.truncate (selectedRestaurants (getRandomRestaurants env rnd st))
            = selected env rnd st"
    by (simp add: getRandomRestaurants_selected u scenarioPlaces_def o_def truncate_enrich)
  have len: "length (selected env rnd st) = 3" using l by (simp add: s)
  have dis: "distinct (selected env rnd st)" using d by (simp add: s)
  have q: "qualityFloor (uniqueResults env st) = take 7 scenarioPlaces"
    by (simp only: u scenario_floor)
  from u q t len dis sub r show ?thesis by blast
qed

theorem scenario_selection_witness:
  "searchKeyword scenarioState = hotPot
   \<and> numberOfRestaurants scenarioState = 3
   \<and> service scenarioState \<and> isLocationReady scenarioState
   \<and> length (selected scenarioEnvironment [0, 0, 0, 0, 0, 0] scenarioState) = 3
   \<and> set (selected scenarioEnvironment [0, 0, 0, 0, 0, 0] scenarioState)
       \<subseteq> set (take 4 scenarioPlaces)
   \<and> map place.truncate
        (selectedRestaurants
          (getRandomRestaurants scenarioEnvironment [0, 0, 0, 0, 0, 0] scenarioState))
       = selected scenarioEnvironment [0, 0, 0, 0, 0, 0] scenarioState"
proof -
  have k: "searchKeyword scenarioState = hotPot" by (simp add: scenarioState_def)
  have n: "numberOfRestaurants scenarioState = 3" by (simp add: scenarioState_def)
  have r: "service scenarioState \<and> isLocationReady scenarioState"
    by (simp add: scenarioState_def)
  from scenario_selection [OF scenario_nearbySearch k n scenario_arraySort, of "[0, 0, 0, 0, 0, 0]"]
    scenario_nearbySearch k n scenario_arraySort r
  show ?thesis by blast
qed

text \<open>
  Claim C1 as it was stated fails in the scenario: the place rated 3.6 passes the
  floor, seven places pass it and the pool has four places.  With the insertion sort of
  the scenario two random sources give two different selections, one of them without
  the best place.
\<close>

theorem scenario_counterexample:
  "scenarioPlace CHR ''6'' (36 / 10)
     \<in> set (qualityFloor (uniqueResults scenarioEnvironment scenarioState))
   \<and> length (qualityFloor (uniqueResults scenarioEnvironment scenarioState)) = 7
   \<and> length (topHalf (sortedResults (uniqueResults scenarioEnvironment scenarioState))) = 4
   \<and> selected scenarioEnvironment [0, 0, 0, 0, 0, 0] scenarioState =
       [scenarioPlace CHR ''3'' (42 / 10), scenarioPlace CHR ''2'' (45 / 10),
        scenarioPlace CHR ''1'' (48 / 10)]
   \<and> selected scenarioEnvironment [3 / 4, 3 / 4, 3 / 4, 3 / 4, 3 / 4, 3 / 4] scenarioState =
       [scenarioPlace CHR ''0'' 5, scenarioPlace CHR ''1'' (48 / 10),
        scenarioPlace CHR ''2'' (45 / 10)]"
proof -
  have u: "uniqueResults scenarioEnvironment scenarioState = scenarioPlaces"
    by (rule scenario_unique [OF scenario_nearbySearch]) (simp add: scenarioState_def)
  have a: "scenarioPlace CHR ''6'' (36 / 10) \<in> set (take 7 scenarioPlaces)"
    by (simp add: scenarioPlaces_def)
  have b: "length (take 7 scenarioPlaces) = 7" "length (take 4 scenarioPlaces) = 4"
    by (simp_all add: scenarioPlaces_def)
  show ?thesis
    using a b scenario_selected_0 scenario_selected_1
    by (simp only: u scenario_floor scenario_sorted scenario_topHalf simp_thms)
qed

section \<open>The size of the selection\<close>

lemma sortedResults_rating:
  assumes "p \<in> set (sortedResults u)"
  shows "\<exists>x. rating p = Some x \<and> 7 / 2 \<le> x \<and> ratingNumber p = x"
proof -
  from assms have "p \<in> set_mset (mset (sortedResults u))" by simp
  then have "p \<in> set (qualityFloor u)" unfolding sortedResults_mset by simp
  then obtain x where "rating p = Some x" "7 / 2 \<le> x"
    using qualityFloor_rating by blast
  then show ?thesis by (simp add: ratingNumber_def)
qed

lemma topHalf_rest:
  "mset (qualityFloor u) - mset (topHalf (sortedResults u))
     = mset (drop ((length (sortedResults u) + 1) div 2) (sortedResults u))"
proof -
  let ?s = "sortedResults u" and ?n = "(length (sortedResults u) + 1) div 2"
  have "mset ?s = mset (take ?n ?s) + mset (drop ?n ?s)"
    by (simp only: union_code append_take_drop_id)
  then have "mset (qualityFloor u) = mset (topHalf ?s) + mset (drop ?n ?s)"
    by (simp only: sortedResults_mset topHalf_def)
  then show ?thesis by simp
qed

lemma topHalf_outranks_rating:
  assumes "p \<in> set (topHalf (sortedResults u))"
    and "q \<in># mset (qualityFloor u) - mset (topHalf (sortedResults u))"
  shows "\<exists>x y. rating p = Some x \<and> rating q = Some y \<and> y \<le> x"
proof -
  from assms(2) have q: "q \<in> set (drop ((length (sortedResults u) + 1) div 2) (sortedResults u))"
    unfolding topHalf_rest by simp
  from assms(1) q have le: "ratingNumber q \<le> ratingNumber p" by (rule topHalf_outranks)
  from assms(1) have "p \<in> set (sortedResults u)" using topHalf_subset by blast
  then obtain x where x: "rating p = Some x" "ratingNumber p = x"
    using sortedResults_rating by blast
  from q have "q \<in> set (sortedResults u)" by (rule in_set_dropD)
  then obtain y where y: "rating q = Some y" "ratingNumber q = y"
    using sortedResults_rating by blast
  from le x y show ?thesis by simp
qed

lemma topHalf_size:
  "length (topHalf (sortedResults u)) = (length (qualityFloor u) + 1) div 2"
proof -
  have "length (sortedResults u) = length (qualityFloor u)"
    using sortedResults_mset [of u] by (metis size_mset)
  then show ?thesis by (simp add: topHalf_def)
qed

lemma topHalf_of_floor: "mset (topHalf (sortedResults u)) \<subseteq># mset (qualityFloor u)"
proof -
  have "mset (take ((length (sortedResults u) + 1) div 2) (sortedResults u))
          \<subseteq># mset (sortedResults u)"
    by (metis append_take_drop_id mset_append mset_subset_eq_add_left)
  then show ?thesis by (simp only: topHalf_def sortedResults_mset)
qed

lemma reversed_unique:
  "uniqueResults reversedEnvironment scenarioState = rev scenarioPlaces"
  by code_simp

lemma reversed_pool:
  "topHalf (sortedResults (rev scenarioPlaces)) = take 4 scenarioPlaces"
  by code_simp

lemma reversed_rest:
  "drop ((length (sortedResults (rev scenarioPlaces)) + 1) div 2)
     (sortedResults (rev scenarioPlaces)) = drop 4 (take 7 scenarioPlaces)"
  by code_simp

lemma reversed_arraySort: "permuting (arraySort reversedEnvironment)"
  by (simp add: reversedEnvironment_def scenarioEnvironment_def insertionSort_permuting)

text \<open>
  Claim C5.  Let the count be at least 0 and the sort of the engine a permutation.  The
  pool is made of places that passed the floor, it has half of them, rounded up, and
  each place of the pool has a rating at least as high as each place that passed the
  floor and is not in the pool.  When the count is at most the size of the pool, the
  selection has exactly as many entries as the count; when the pool is smaller, the
  selection is all of the pool.  Every selected place is in the pool, and the selection
  is what the search stores.
\<close>

theorem selection_size:
  assumes "permuting (arraySort env)" and "0 \<le> numberOfRestaurants st"
  shows "(numberOfRestaurants st \<le> int (length (topHalf (sortedResults (uniqueResults env st))))
            \<longrightarrow> length (selected env rnd st) = nat (numberOfRestaurants st))
     \<and> (int (length (topHalf (sortedResults (uniqueResults env st)))) < numberOfRestaurants st
            \<longrightarrow> mset (selected env rnd st)
                  = mset (topHalf (sortedResults (uniqueResults env st))))
     \<and> set (selected env rnd st) \<subseteq> set (topHalf (sortedResults (uniqueResults env st)))
     \<and> mset (topHalf (sortedResults (uniqueResults env st)))
          \<subseteq># mset (qualityFloor (uniqueResults env st))
     \<and> length (topHalf (sortedResults (uniqueResults env st)))
          = (length (qualityFloor (uniqueResults env st)) + 1) div 2
     \<and> (\<forall>p \<in> set (topHalf (sortedResults (uniqueResults env st))).
          \<forall>q \<in># mset (qualityFloor (uniqueResults env st))
                  - mset (topHalf (sortedResults (uniqueResults env st))).
            \<exists>x y. rating p = Some x \<and> rating q = Some y \<and> y \<le> x)
     \<and> (service st \<and> isLocationReady st \<and> uniqueResults env st \<noteq> [] \<longrightarrow>
          map place.truncate (selectedRestaurants (getRandomRestaurants env rnd st))
            = selected env rnd st)"
proof -
  let ?pool = "topHalf (sortedResults (uniqueResults env st))"
  let ?k = "numberOfRestaurants st"
  have s: "selected env rnd st = take (nat ?k) (shuffle (arraySort env) rnd ?pool)"
    using assms(2) by (simp add: selected_def slice0_nonneg)
  have l: "length (shuffle (arraySort env) rnd ?pool) = length ?pool"
    using assms(1) by (rule shuffle_length)
  have 1: "?k \<le> int (length ?pool) \<longrightarrow> length (selected env rnd st) = nat ?k"
    using assms(2) by (simp add: s l)
  have 2: "int (length ?pool) < ?k \<longrightarrow> mset (selected env rnd st) = mset ?pool"
  proof
    assume "int (length ?pool) < ?k"
    then have "length (shuffle (arraySort env) rnd ?pool) \<le> nat ?k" by (simp add: l)
    then have "selected env rnd st = shuffle (arraySort env) rnd ?pool" by (simp add: s)
    then show "mset (selected env rnd st) = mset ?pool"
      using shuffle_mset [OF assms(1)] by simp
  qed
  have 3: "set (selected env rnd st) \<subseteq> set ?pool"
    using assms(1) by (rule selected_subset)
  have 4: "mset ?pool \<subseteq># mset (qualityFloor (uniqueResults env st))"
    by (rule topHalf_of_floor)
  have 5: "length ?pool = (length (qualityFloor (uniqueResults env st)) + 1) div 2"
    by (rule topHalf_size)
  have 6: "\<forall>p \<in> set ?pool.
          \<forall>q \<in># mset (qualityFloor (uniqueResults env st)) - mset ?pool.
            \<exists>x y. rating p = Some x \<and> rating q = Some y \<and> y \<le> x"
    using topHalf_outranks_rating by blast
  have 7: "service st \<and> isLocationReady st \<and> uniqueResults env st \<noteq> [] \<longrightarrow>
          map place.truncate (selectedRestaurants (getRandomRestaurants env rnd st))
            = selected env rnd st"
    by (simp add: getRandomRestaurants_selected o_def truncate_enrich)
  from 1 2 3 4 5 6 7 show ?thesis by blast
qed

theorem selection_size_witness:
  "uniqueResults reversedEnvironment scenarioState = rev scenarioPlaces
   \<and> topHalf (sortedResults (uniqueResults reversedEnvironment scenarioState))
       = take 4 scenarioPlaces
   \<and> numberOfRestaurants scenarioState = 3
   \<and> length (selected reversedEnvironment [0, 0, 0, 0, 0, 0] scenarioState) = 3
   \<and> numberOfRestaurants (scenarioState\<lparr>numberOfRestaurants := 10\<rparr>) = 10
   \<and> mset (selected reversedEnvironment [0, 0, 0, 0, 0, 0]
              (scenarioState\<lparr>numberOfRestaurants := 10\<rparr>))
       = mset (take 4 scenarioPlaces)
   \<and> scenarioPlace CHR ''3'' (42 / 10)
        \<in> set (topHalf (sortedResults (uniqueResults reversedEnvironment scenarioState)))
   \<and> scenarioPlace CHR ''4'' 4
        \<in># mset (qualityFloor (uniqueResults reversedEnvironment scenarioState))
             - mset (topHalf (sortedResults (uniqueResults reversedEnvironment scenarioState)))
   \<and> rating (scenarioPlace CHR ''3'' (42 / 10)) = Some (42 / 10)
   \<and> rating (scenarioPlace CHR ''4'' 4) = Some 4
   \<and> map place.truncate
        (selectedRestaurants
          (getRandomRestaurants reversedEnvironment [0, 0, 0, 0, 0, 0] scenarioState))
       = selected reversedEnvironment [0, 0, 0, 0, 0, 0] scenarioState"
proof -
  let ?env = reversedEnvironment and ?rnd = "[0, 0, 0, 0, 0, 0] :: rat list"
  let ?st10 = "scenarioState\<lparr>numberOfRestaurants := 10\<rparr>"
  let ?p3 = "scenarioPlace CHR ''3'' (42 / 10)" and ?p4 = "scenarioPlace CHR ''4'' 4"
  have u: "uniqueResults ?env scenarioState = rev scenarioPlaces"
    by (rule reversed_unique)
  have "uniqueResults ?env ?st10 = uniqueResults ?env scenarioState"
    by (simp add: uniqueResults_def allResults_def)
  then have u10: "uniqueResults ?env ?st10 = rev scenarioPlaces" by (simp only: u)
  have p: "topHalf (sortedResults (uniqueResults ?env scenarioState)) = take 4 scenarioPlaces"
    by (simp only: u reversed_pool)
  have p10: "topHalf (sortedResults (uniqueResults ?env ?st10)) = take 4 scenarioPlaces"
    by (simp only: u10 reversed_pool)
  have n: "numberOfRestaurants scenarioState = 3" "numberOfRestaurants ?st10 = 10"
    by (simp_all add: scenarioState_def)
  have a: "0 \<le> numberOfRestaurants scenarioState" "0 \<le> numberOfRestaurants ?st10"
    by (simp_all add: n)
  have l: "length (take 4 scenarioPlaces) = 4" by (simp add: scenarioPlaces_def)
  have r: "service scenarioState \<and> isLocationReady scenarioState
           \<and> uniqueResults ?env scenarioState \<noteq> []"
    by (simp add: u) (simp add: scenarioState_def scenarioPlaces_def)
  have m3: "?p3 \<in> set (topHalf (sortedResults (uniqueResults ?env scenarioState)))"
    by (simp only: p) (simp add: scenarioPlaces_def)
  have "?p4 \<in> set (drop 4 (take 7 scenarioPlaces))" by (simp add: scenarioPlaces_def)
  then have m4: "?p4 \<in># mset (qualityFloor (uniqueResults ?env scenarioState))
             - mset (topHalf (sortedResults (uniqueResults ?env scenarioState)))"
    by (simp only: topHalf_rest u reversed_rest set_mset_mset)
  have r3: "rating ?p3 = Some (42 / 10)" and r4: "rating ?p4 = Some 4"
    by (simp_all add: scenarioPlace_def)
  note t = selection_size [OF reversed_arraySort a(1), of ?rnd]
  note t10 = selection_size [OF reversed_arraySort a(2), of ?rnd]
  from t have "numberOfRestaurants scenarioState
                 \<le> int (length (topHalf (sortedResults (uniqueResults ?env scenarioState))))
            \<longrightarrow> length (selected ?env ?rnd scenarioState)
                  = nat (numberOfRestaurants scenarioState)"
    by blast
  then have 1: "length (selected ?env ?rnd scenarioState) = 3"
    unfolding p l n by simp
  from t10 have "int (length (topHalf (sortedResults (uniqueResults ?env ?st10))))
                   < numberOfRestaurants ?st10
            \<longrightarrow> mset (selected ?env ?rnd ?st10)
                  = mset (topHalf (sortedResults (uniqueResults ?env ?st10)))"
    by blast
  then have 2: "mset (selected ?env ?rnd ?st10) = mset (take 4 scenarioPlaces)"
    unfolding p10 l n by simp
  from t m3 m4 have "\<exists>x y. rating ?p3 = Some x \<and> rating ?p4 = Some y \<and> y \<le> x"
    by blast
  from t r have 3: "map place.truncate
        (selectedRestaurants (getRandomRestaurants ?env ?rnd scenarioState))
       = selected ?env ?rnd scenarioState"
    by blast
  from u p n 1 2 m3 m4 r3 r4 3 show ?thesis by blast
qed

section \<open>The quality floor\<close>

lemma unrated_unique:
  "uniqueResults unratedEnvironment scenarioState = unratedPlace # scenarioPlaces"
  by code_simp

lemma unrated_selected:
  "selected unratedEnvironment [0, 0, 0, 0, 0, 0] scenarioState =
     [scenarioPlace CHR ''3'' (42 / 10), scenarioPlace CHR ''2'' (45 / 10),
      scenarioPlace CHR ''1'' (48 / 10)]"
  by code_simp

lemma unrated_arraySort: "permuting (arraySort unratedEnvironment)"
  by (simp add: unratedEnvironment_def scenarioEnvironment_def insertionSort_permuting)

text \<open>
  Claim C6.  A place without rating, or rated below 3.5, does not pass the floor and is
  not selected; every place that the search selects and stores has a rating of at least
  3.5.
\<close>

theorem quality_floor_excludes:
  assumes "permuting (arraySort env)"
  shows "(rating p = None \<or> (\<exists>x. rating p = Some x \<and> x < 7 / 2)
            \<longrightarrow> p \<notin> set (qualityFloor xs) \<and> p \<notin> set (selected env rnd st))
     \<and> (\<forall>q \<in> set (selected env rnd st). \<exists>x. rating q = Some x \<and> 7 / 2 \<le> x)
     \<and> (service st \<and> isLocationReady st \<and> uniqueResults env st \<noteq> [] \<longrightarrow>
          (\<forall>r \<in> set (selectedRestaurants (getRandomRestaurants env rnd st)).
             \<exists>x. rating r = Some x \<and> 7 / 2 \<le> x))"
proof -
  have 1: "rating p = None \<or> (\<exists>x. rating p = Some x \<and> x < 7 / 2)
            \<longrightarrow> p \<notin> set (qualityFloor xs) \<and> p \<notin> set (selected env rnd st)"
  proof
    assume a: "rating p = None \<or> (\<exists>x. rating p = Some x \<and> x < 7 / 2)"
    have "p \<notin> set (qualityFloor xs)"
    proof
      assume "p \<in> set (qualityFloor xs)"
      then obtain x where "rating p = Some x" "7 / 2 \<le> x"
        using qualityFloor_rating by blast
      with a show False by auto
    qed
    moreover have "p \<notin> set (selected env rnd st)"
    proof
      assume "p \<in> set (selected env rnd st)"
      then obtain x where "rating p = Some x" "7 / 2 \<le> x"
        using selected_rating [OF assms] by blast
      with a show False by auto
    qed
    ultimately show "p \<notin> set (qualityFloor xs) \<and> p \<notin> set (selected env rnd st)" ..
  qed
  have 2: "\<forall>q \<in> set (selected env rnd st). \<exists>x. rating q = Some x \<and> 7 / 2 \<le> x"
    using selected_rating [OF assms] by blast
  have 3: "service st \<and> isLocationReady st \<and> uniqueResults env st \<noteq> [] \<longrightarrow>
          (\<forall>r \<in> set (selectedRestaurants (getRandomRestaurants env rnd st)).
             \<exists>x. rating r = Some x \<and> 7 / 2 \<le> x)"
    using 2 by (auto simp: getRandomRestaurants_selected rating_enrich)
  from 1 2 3 show ?thesis by blast
qed

theorem quality_floor_excludes_witness:
  "rating unratedPlace = None
   \<and> unratedPlace \<in> set (uniqueResults unratedEnvironment scenarioState)
   \<and> unratedPlace \<notin> set (qualityFloor (uniqueResults unratedEnvironment scenarioState))
   \<and> unratedPlace \<notin> set (selected unratedEnvironment [0, 0, 0, 0, 0, 0] scenarioState)
   \<and> rating (scenarioPlace CHR ''7'' (34 / 10)) = Some (34 / 10)
   \<and> scenarioPlace CHR ''7'' (34 / 10)
       \<notin> set (qualityFloor (uniqueResults unratedEnvironment scenarioState))
   \<and> scenarioPlace CHR ''3'' (42 / 10)
       \<in> set (selected unratedEnvironment [0, 0, 0, 0, 0, 0] scenarioState)
   \<and> service scenarioState \<and> isLocationReady scenarioState
   \<and> enrich unratedEnvironment scenarioState (scenarioPlace CHR ''3'' (42 / 10))
       \<in> set (selectedRestaurants
                (getRandomRestaurants unratedEnvironment [0, 0, 0, 0, 0, 0] scenarioState))
   \<and> (case rating (enrich unratedEnvironment scenarioState (scenarioPlace CHR ''3'' (42 / 10))) of
         None \<Rightarrow> False | Some x \<Rightarrow> 7 / 2 \<le> x)"
proof -
  let ?env = unratedEnvironment and ?st = scenarioState and ?rnd = "[0, 0, 0, 0, 0, 0] :: rat list"
  let ?p3 = "scenarioPlace CHR ''3'' (42 / 10)" and ?p7 = "scenarioPlace CHR ''7'' (34 / 10)"
  have a: "rating unratedPlace = None" by (simp add: unratedPlace_def)
  have b: "rating ?p7 = Some (34 / 10)" by (simp add: scenarioPlace_def)
  have b': "\<exists>x. rating ?p7 = Some x \<and> x < 7 / 2"
    by (rule exI [of _ "34 / 10"]) (simp add: scenarioPlace_def)
  have c: "unratedPlace \<in> set (uniqueResults ?env ?st)" by (simp add: unrated_unique)
  have d: "?p3 \<in> set (selected ?env ?rnd ?st)" by (simp add: unrated_selected)
  have e: "service ?st \<and> isLocationReady ?st \<and> uniqueResults ?env ?st \<noteq> []"
    by (simp add: unrated_unique) (simp add: scenarioState_def)
  have f: "enrich ?env ?st ?p3 \<in> set (selectedRestaurants (getRandomRestaurants ?env ?rnd ?st))"
    using d e by (simp add: getRandomRestaurants_selected)
  note t = quality_floor_excludes [OF unrated_arraySort, of _ _ ?rnd ?st]
  from t [of unratedPlace "uniqueResults ?env ?st"] a
  have 1: "unratedPlace \<notin> set (qualityFloor (uniqueResults ?env ?st))"
      "unratedPlace \<notin> set (selected ?env ?rnd ?st)"
    by blast+
  from t [of ?p7 "uniqueResults ?env ?st"] b'
  have 2: "?p7 \<notin> set (qualityFloor (uniqueResults ?env ?st))" by blast
  from t [of ?p7 "uniqueResults ?env ?st"] e f
  have "\<exists>x. rating (enrich ?env ?st ?p3) = Some x \<and> 7 / 2 \<le> x" by blast
  then have 3: "case rating (enrich ?env ?st ?p3) of None \<Rightarrow> False | Some x \<Rightarrow> 7 / 2 \<le> x"
    by auto
  from a b c d e f 1 2 3 show ?thesis by blast
qed

section \<open>The shuffle\<close>




section \<open>The popovers of the markers\<close>












section \<open>The position of the user: the late callback\<close>

lemma first_event_updates_once:
  "readyWrites (locationRun True [ev] st) = readyWrites st + 1
   \<and> locationMarkerUpdates (locationRun True [ev] st) = locationMarkerUpdates st + 1
   \<and> resolveCalls (locationRun True [ev] st) = resolveCalls st + 1"
  by (cases ev)
    (simp_all add: locationRun_def getUserLocation_def onLocationTimeout_def
      onPositionSuccess_def onPositionError_def setLocation_def resolve_def
      updateCurrentLocationMarker_def)

lemma callback_clears_timer:
  "locationRun True [PositionSuccess pos, TimerFired] st = locationRun True [PositionSuccess pos] st"
  by (simp add: locationRun_def getUserLocation_def onLocationTimeout_def
      onPositionSuccess_def setLocation_def resolve_def updateCurrentLocationMarker_def)

lemma unsupported_updates_once:
  "readyWrites (locationRun False [] st) = readyWrites st + 1
   \<and> locationMarkerUpdates (locationRun False [] st) = locationMarkerUpdates st + 1
   \<and> resolveCalls (locationRun False [] st) = resolveCalls st + 1
   \<and> currentPosition (locationRun False [] st) = Some defaultPosition"
  by (simp add: locationRun_def getUserLocation_def setLocation_def resolve_def
      updateCurrentLocationMarker_def)

text \<open>
  Claim C8.  The two callbacks of the device clear the fallback timer, so a callback
  that comes first is the only update.  The timer does not stop the device: when the
  timer fires first and the device calls back afterwards, the flag is written twice, the
  marker of the current location is rebuilt twice, the promise is resolved twice, and the
  position moves from the default to the position of the device.
\<close>

theorem late_callback_updates_twice:
  "readyWrites (locationRun True [TimerFired, PositionSuccess pos] st) = readyWrites st + 2
   \<and> locationMarkerUpdates (locationRun True [TimerFired, PositionSuccess pos] st)
       = locationMarkerUpdates st + 2
   \<and> resolveCalls (locationRun True [TimerFired, PositionSuccess pos] st) = resolveCalls st + 2
   \<and> currentPosition (locationRun True [TimerFired, PositionSuccess pos] st) = Some pos"
  by (simp add: locationRun_def getUserLocation_def onLocationTimeout_def
      onPositionSuccess_def setLocation_def resolve_def updateCurrentLocationMarker_def)

end
